theory Spec2Isabelle
  imports Main "HOL-Library.Char_ord" "HOL-Library.List_Lexorder"
begin

section \<open>The store\<close>

text \<open>
  \<^verbatim>\<open>DatabaseConnection.setup_database\<close> creates three tables:
  \<^verbatim>\<open>teams(team_name TEXT PRIMARY KEY)\<close>,
  \<^verbatim>\<open>team_members(username TEXT, team_name TEXT, PRIMARY KEY (username, team_name))\<close> and
  \<^verbatim>\<open>chat_teams(chat_id INTEGER, team_name TEXT, PRIMARY KEY (chat_id, team_name))\<close>.
  A table is the list of its rows in insertion (rowid) order. Python strings are
  modelled as \<open>string\<close> (ASCII text), Python integers as \<open>int\<close>. The
  \<^verbatim>\<open>FOREIGN KEY\<close> clauses are declarations only: \<^verbatim>\<open>sqlite3.connect\<close> leaves
  foreign-key enforcement switched off, so the store checks primary keys and nothing else.
\<close>

record db =
  teams :: "string list"
  team_members :: "(string \<times> string) list"
  chat_teams :: "(int \<times> string) list"

definition empty_db :: db where
  "empty_db = \<lparr>teams = [], team_members = [], chat_teams = []\<rparr>"

text \<open>
  The exceptions that reach the handlers of the service. \<open>IntegrityError\<close> is
  \<^verbatim>\<open>sqlite3.IntegrityError\<close> (a primary key is already present), \<open>OverflowError\<close>
  is raised when a Python integer bound to a statement does not fit SQLite's 64-bit
  INTEGER, \<open>OperationalError\<close> stands for every unexpected storage fault
  (I/O, lock, connection loss).
\<close>

datatype exn = IntegrityError | OverflowError | OperationalError

text \<open>
  The storage calls of one service method, in source order: opening the connection, the
  \<open>k\<close>-th \<^verbatim>\<open>cursor.execute\<close> of the method body, and \<^verbatim>\<open>conn.commit()\<close>.
  A value of type \<open>faults\<close> says which of them raise an unexpected storage fault during
  the call; \<open>no_faults\<close> is the run in which the storage works.
\<close>

datatype call = Connect | Execute nat | Commit

type_synonym faults = "call \<Rightarrow> bool"

definition no_faults :: faults where
  "no_faults = (\<lambda>c. False)"

definition fits_int64 :: "int \<Rightarrow> bool" where
  "fits_int64 i \<longleftrightarrow> - (2 ^ 63) \<le> i \<and> i < 2 ^ 63"

section \<open>Normalisation\<close>

text \<open>\<^verbatim>\<open>str.lower()\<close> on ASCII text: the 26 capital letters are mapped, every other
  character is kept.\<close>

definition lower_char :: "char \<Rightarrow> char" where
  "lower_char c =
     (case map_of (zip ''ABCDEFGHIJKLMNOPQRSTUVWXYZ'' ''abcdefghijklmnopqrstuvwxyz'') c of
        Some d \<Rightarrow> d
      | None \<Rightarrow> c)"

definition lower :: "string \<Rightarrow> string" where
  "lower s = map lower_char s"

text \<open>\<^verbatim>\<open>username.replace("@", "")\<close>: every occurrence of the character is removed.\<close>

definition replace_at :: "string \<Rightarrow> string" where
  "replace_at s = filter (\<lambda>c. c \<noteq> CHR ''@'') s"

section \<open>Responses\<close>

text \<open>
  Every mutating method returns a dictionary with the keys \<^verbatim>\<open>success\<close> and
  \<^verbatim>\<open>message\<close> and, on success, one list. Each \<^verbatim>\<open>return\<close> statement of the source is
  one constructor here, carrying the values that the statement formats into its message
  and the list it returns.
\<close>

datatype response =
    TeamCreated string
  | TeamAlreadyExists string
  | TeamDoesNotExist string
  | MemberAdded string string "int list"
  | AlreadyInTeam string string
  | MemberRemoved string string "int list"
  | NotInTeam string string
  | TeamAddedToChat string "string list"
  | TeamAlreadyInChat string
  | UserOffboarded string "int list"
  | NotInAnyTeams string
  | InternalServerError

fun success :: "response \<Rightarrow> bool" where
  "success (TeamCreated t) = True"
| "success (MemberAdded u t chats) = True"
| "success (MemberRemoved u t chats) = True"
| "success (TeamAddedToChat t members) = True"
| "success (UserOffboarded u chats) = True"
| "success r = False"

section \<open>The service\<close>

text \<open>
  Each method opens its own connection, and \<^verbatim>\<open>get_connection\<close> closes it on every
  exit path. Python's \<^verbatim>\<open>sqlite3\<close> opens a transaction before an INSERT or DELETE, and
  closing a connection discards what was not committed. The body of a \<^verbatim>\<open>try\<close> block
  is modelled as a function that returns what the block raised or returned, together
  with the persisted store at that moment; the method itself adds the handlers.
  \<^verbatim>\<open>conn.close()\<close> is taken not to raise.
\<close>

definition create_team_body :: "faults \<Rightarrow> string \<Rightarrow> db \<Rightarrow> (exn + response) \<times> db" where
  "create_team_body flt team_name s =
     (if flt Connect then (Inl OperationalError, s)
      else if flt (Execute 1) then (Inl OperationalError, s)
      else if team_name \<in> set (teams s) then (Inl IntegrityError, s)
      else let tx = s\<lparr>teams := teams s @ [team_name]\<rparr> in
        if flt Commit then (Inl OperationalError, s)
        else (Inr (TeamCreated team_name), tx))"

definition create_team :: "faults \<Rightarrow> string \<Rightarrow> db \<Rightarrow> response \<times> db" where
  "create_team flt team_name0 s =
     (let team_name = lower team_name0 in
      case create_team_body flt team_name s of
        (Inr r, s') \<Rightarrow> (r, s')
      | (Inl IntegrityError, s') \<Rightarrow> (TeamAlreadyExists team_name, s')
      | (Inl e, s') \<Rightarrow> (InternalServerError, s'))"

definition add_member_to_team_body ::
  "faults \<Rightarrow> string \<Rightarrow> string \<Rightarrow> db \<Rightarrow> (exn + response) \<times> db" where
  "add_member_to_team_body flt username team_name s =
     (if flt Connect then (Inl OperationalError, s)
      else if flt (Execute 1) then (Inl OperationalError, s)
      else if team_name \<notin> set (teams s) then (Inr (TeamDoesNotExist team_name), s)
      else if flt (Execute 2) then (Inl OperationalError, s)
      else if (username, team_name) \<in> set (team_members s) then (Inl IntegrityError, s)
      else let tx = s\<lparr>team_members := team_members s @ [(username, team_name)]\<rparr> in
        if flt Commit then (Inl OperationalError, s)
        else if flt (Execute 3) then (Inl OperationalError, tx)
        else let chats = filter (\<lambda>(c, t). t = team_name) (chat_teams tx) in
          (Inr (MemberAdded username team_name (map fst chats)), tx))"

definition add_member_to_team :: "faults \<Rightarrow> string \<Rightarrow> string \<Rightarrow> db \<Rightarrow> response \<times> db" where
  "add_member_to_team flt username0 team_name0 s =
     (let username = replace_at username0; team_name = lower team_name0 in
      case add_member_to_team_body flt username team_name s of
        (Inr r, s') \<Rightarrow> (r, s')
      | (Inl IntegrityError, s') \<Rightarrow> (AlreadyInTeam username team_name, s')
      | (Inl e, s') \<Rightarrow> (InternalServerError, s'))"

definition remove_member_from_team_body ::
  "faults \<Rightarrow> string \<Rightarrow> string \<Rightarrow> db \<Rightarrow> (exn + response) \<times> db" where
  "remove_member_from_team_body flt username team_name s =
     (if flt Connect then (Inl OperationalError, s)
      else if flt (Execute 1) then (Inl OperationalError, s)
      else let rowcount = length (filter (\<lambda>r. r = (username, team_name)) (team_members s));
               tx = s\<lparr>team_members := filter (\<lambda>r. r \<noteq> (username, team_name)) (team_members s)\<rparr> in
        if rowcount = 0 then (Inr (NotInTeam username team_name), s)
        else if flt Commit then (Inl OperationalError, s)
        else if flt (Execute 2) then (Inl OperationalError, tx)
        else let chats = filter (\<lambda>(c, t). t = team_name) (chat_teams tx) in
          (Inr (MemberRemoved username team_name (map fst chats)), tx))"

definition remove_member_from_team :: "faults \<Rightarrow> string \<Rightarrow> string \<Rightarrow> db \<Rightarrow> response \<times> db" where
  "remove_member_from_team flt username0 team_name0 s =
     (let username = replace_at username0; team_name = lower team_name0 in
      case remove_member_from_team_body flt username team_name s of
        (Inr r, s') \<Rightarrow> (r, s')
      | (Inl e, s') \<Rightarrow> (InternalServerError, s'))"

definition add_team_to_chat_body ::
  "faults \<Rightarrow> int \<Rightarrow> string \<Rightarrow> db \<Rightarrow> (exn + response) \<times> db" where
  "add_team_to_chat_body flt chat_id team_name s =
     (if flt Connect then (Inl OperationalError, s)
      else if flt (Execute 1) then (Inl OperationalError, s)
      else if team_name \<notin> set (teams s) then (Inr (TeamDoesNotExist team_name), s)
      else if \<not> fits_int64 chat_id then (Inl OverflowError, s)
      else if flt (Execute 2) then (Inl OperationalError, s)
      else if (chat_id, team_name) \<in> set (chat_teams s) then (Inl IntegrityError, s)
      else let tx = s\<lparr>chat_teams := chat_teams s @ [(chat_id, team_name)]\<rparr> in
        if flt Commit then (Inl OperationalError, s)
        else if flt (Execute 3) then (Inl OperationalError, tx)
        else let members = filter (\<lambda>(u, t). t = team_name) (team_members tx) in
          (Inr (TeamAddedToChat team_name (map fst members)), tx))"

definition add_team_to_chat :: "faults \<Rightarrow> int \<Rightarrow> string \<Rightarrow> db \<Rightarrow> response \<times> db" where
  "add_team_to_chat flt chat_id team_name0 s =
     (let team_name = lower team_name0 in
      case add_team_to_chat_body flt chat_id team_name s of
        (Inr r, s') \<Rightarrow> (r, s')
      | (Inl IntegrityError, s') \<Rightarrow> (TeamAlreadyInChat team_name, s')
      | (Inl e, s') \<Rightarrow> (InternalServerError, s'))"

definition offboard_user_body :: "faults \<Rightarrow> string \<Rightarrow> db \<Rightarrow> (exn + response) \<times> db" where
  "offboard_user_body flt username s =
     (if flt Connect then (Inl OperationalError, s)
      else if flt (Execute 1) then (Inl OperationalError, s)
      else let user_teams = map snd (filter (\<lambda>(u, t). u = username) (team_members s));
               chats = remdups (map fst (filter (\<lambda>(c, t). t \<in> set user_teams) (chat_teams s))) in
        if flt (Execute 2) then (Inl OperationalError, s)
        else let rowcount = length (filter (\<lambda>(u, t). u = username) (team_members s));
                 tx = s\<lparr>team_members := filter (\<lambda>(u, t). u \<noteq> username) (team_members s)\<rparr> in
          if rowcount = 0 then (Inr (NotInAnyTeams username), s)
          else if flt Commit then (Inl OperationalError, s)
          else (Inr (UserOffboarded username chats), tx))"

definition offboard_user :: "faults \<Rightarrow> string \<Rightarrow> db \<Rightarrow> response \<times> db" where
  "offboard_user flt username0 s =
     (let username = replace_at username0 in
      case offboard_user_body flt username s of
        (Inr r, s') \<Rightarrow> (r, s')
      | (Inl e, s') \<Rightarrow> (InternalServerError, s'))"

text \<open>
  The queries have no handler: a storage fault leaves them as the exception. Without
  \<^verbatim>\<open>ORDER BY\<close> the rows come in table order here (SQL leaves that order to the engine).
  \<^verbatim>\<open>get_team_members\<close> is defined twice in the class; the second definition, with
  \<^verbatim>\<open>ORDER BY username\<close>, is the one in force. SQLite orders TEXT by its bytes, which is
  the lexicographic order of \<open>string\<close>.
\<close>

definition get_user_teams :: "faults \<Rightarrow> string \<Rightarrow> db \<Rightarrow> exn + string list" where
  "get_user_teams flt username0 s =
     (let username = replace_at username0 in
      if flt Connect then Inl OperationalError
      else if flt (Execute 1) then Inl OperationalError
      else Inr (map snd (filter (\<lambda>(u, t). u = username) (team_members s))))"

definition get_chat_teams :: "faults \<Rightarrow> int \<Rightarrow> db \<Rightarrow> exn + string list" where
  "get_chat_teams flt chat_id s =
     (if flt Connect then Inl OperationalError
      else if \<not> fits_int64 chat_id then Inl OverflowError
      else if flt (Execute 1) then Inl OperationalError
      else Inr (map snd (filter (\<lambda>(c, t). c = chat_id) (chat_teams s))))"

definition get_teams :: "faults \<Rightarrow> db \<Rightarrow> exn + string list" where
  "get_teams flt s =
     (if flt Connect then Inl OperationalError
      else if flt (Execute 1) then Inl OperationalError
      else Inr (sort (teams s)))"

definition get_team_members :: "faults \<Rightarrow> string \<Rightarrow> db \<Rightarrow> exn + string list" where
  "get_team_members flt team_name0 s =
     (let team_name = lower team_name0 in
      if flt Connect then Inl OperationalError
      else if flt (Execute 1) then Inl OperationalError
      else Inr (sort (map fst (filter (\<lambda>(u, t). t = team_name) (team_members s)))))"

section \<open>Operations and invariants\<close>

text \<open>The five mutating methods as one step function, for statements about all of them.\<close>

datatype operation =
    CreateTeam string
  | AddMember string string
  | RemoveMember string string
  | AddTeamToChat int string
  | OffboardUser string

fun run :: "faults \<Rightarrow> operation \<Rightarrow> db \<Rightarrow> response \<times> db" where
  "run flt (CreateTeam team_name) s = create_team flt team_name s"
| "run flt (AddMember username team_name) s = add_member_to_team flt username team_name s"
| "run flt (RemoveMember username team_name) s = remove_member_from_team flt username team_name s"
| "run flt (AddTeamToChat chat_id team_name) s = add_team_to_chat flt chat_id team_name s"
| "run flt (OffboardUser username) s = offboard_user flt username s"

text \<open>The storage call, if any, that a method makes after its \<^verbatim>\<open>conn.commit()\<close>:
  the third \<^verbatim>\<open>execute\<close> of \<^verbatim>\<open>add_member_to_team\<close> and \<^verbatim>\<open>add_team_to_chat\<close>, the second
  of \<^verbatim>\<open>remove_member_from_team\<close>; the other two methods return right after the commit.\<close>

fun query_after_commit :: "operation \<Rightarrow> call option" where
  "query_after_commit (CreateTeam team_name) = None"
| "query_after_commit (AddMember username team_name) = Some (Execute 3)"
| "query_after_commit (RemoveMember username team_name) = Some (Execute 2)"
| "query_after_commit (AddTeamToChat chat_id team_name) = Some (Execute 3)"
| "query_after_commit (OffboardUser username) = None"

text \<open>Referential integrity: the team of every membership row and of every chat link is a
  row of \<^verbatim>\<open>teams\<close>.\<close>

definition ref_integrity :: "db \<Rightarrow> bool" where
  "ref_integrity s \<longleftrightarrow>
     snd ` set (team_members s) \<subseteq> set (teams s) \<and> snd ` set (chat_teams s) \<subseteq> set (teams s)"

text \<open>The primary keys of the schema: no table holds a row twice.\<close>

definition pk_unique :: "db \<Rightarrow> bool" where
  "pk_unique s \<longleftrightarrow> distinct (teams s) \<and> distinct (team_members s) \<and> distinct (chat_teams s)"

text \<open>A sequence of calls, each with its own storage faults, from a given store.\<close>

fun run_all :: "(faults \<times> operation) list \<Rightarrow> db \<Rightarrow> db" where
  "run_all [] s = s"
| "run_all ((flt, op) # calls) s = run_all calls (snd (run flt op s))"

text \<open>The run in which exactly one storage call raises.\<close>

definition fault_at :: "call \<Rightarrow> faults" where
  "fault_at c = (\<lambda>c'. c' = c)"

text \<open>Stores used in the examples: one team \<^verbatim>\<open>eng\<close>; and two teams \<^verbatim>\<open>a\<close>, \<^verbatim>\<open>b\<close> linked to
  the chats 1, 2 and 2, 3, with the user \<^verbatim>\<open>u\<close> in both.\<close>

definition db_eng :: db where
  "db_eng = \<lparr>teams = [''eng''], team_members = [], chat_teams = []\<rparr>"

definition db_ab :: db where
  "db_ab = \<lparr>teams = [''a'', ''b''],
            team_members = [(''u'', ''a''), (''u'', ''b''), (''v'', ''a'')],
            chat_teams = [(1, ''a''), (2, ''a''), (2, ''b''), (3, ''b'')]\<rparr>"

definition db_alice :: db where
  "db_alice = \<lparr>teams = [''eng''], team_members = [(''Alice'', ''eng'')], chat_teams = []\<rparr>"

definition db_bob :: db where
  "db_bob = \<lparr>teams = [''eng''], team_members = [(''bob'', ''eng'')], chat_teams = []\<rparr>"

definition db_zed :: db where
  "db_zed = \<lparr>teams = [''eng'', ''ops''],
             team_members = [(''bob'', ''eng''), (''Zed'', ''eng''), (''al'', ''eng'')],
             chat_teams = []\<rparr>"

section \<open>The methods when the storage works\<close>

text \<open>With \<open>no_faults\<close> each method is a case distinction on the store.\<close>

lemma no_faults_call: "\<not> no_faults c"
  by (simp add: no_faults_def)

lemmas body_defs = create_team_def create_team_body_def add_member_to_team_def
  add_member_to_team_body_def remove_member_from_team_def remove_member_from_team_body_def
  add_team_to_chat_def add_team_to_chat_body_def offboard_user_def offboard_user_body_def

lemma create_team_no_faults:
  "create_team no_faults t s =
     (if lower t \<in> set (teams s) then (TeamAlreadyExists (lower t), s)
      else (TeamCreated (lower t), s\<lparr>teams := teams s @ [lower t]\<rparr>))"
  by (simp add: create_team_def create_team_body_def no_faults_def Let_def)

lemma add_member_to_team_no_faults:
  "add_member_to_team no_faults u t s =
     (if lower t \<notin> set (teams s) then (TeamDoesNotExist (lower t), s)
      else if (replace_at u, lower t) \<in> set (team_members s)
        then (AlreadyInTeam (replace_at u) (lower t), s)
      else (MemberAdded (replace_at u) (lower t)
              (map fst (filter (\<lambda>(c, t'). t' = lower t) (chat_teams s))),
            s\<lparr>team_members := team_members s @ [(replace_at u, lower t)]\<rparr>))"
  by (simp add: add_member_to_team_def add_member_to_team_body_def no_faults_def Let_def)

lemma remove_member_from_team_no_faults:
  "remove_member_from_team no_faults u t s =
     (if (replace_at u, lower t) \<notin> set (team_members s)
        then (NotInTeam (replace_at u) (lower t), s)
      else (MemberRemoved (replace_at u) (lower t)
              (map fst (filter (\<lambda>(c, t'). t' = lower t) (chat_teams s))),
            s\<lparr>team_members := filter (\<lambda>r. r \<noteq> (replace_at u, lower t)) (team_members s)\<rparr>))"
  by (auto simp add: remove_member_from_team_def remove_member_from_team_body_def no_faults_def Let_def filter_empty_conv)

lemma add_team_to_chat_no_faults:
  "add_team_to_chat no_faults c t s =
     (if lower t \<notin> set (teams s) then (TeamDoesNotExist (lower t), s)
      else if \<not> fits_int64 c then (InternalServerError, s)
      else if (c, lower t) \<in> set (chat_teams s) then (TeamAlreadyInChat (lower t), s)
      else (TeamAddedToChat (lower t)
              (map fst (filter (\<lambda>(u, t'). t' = lower t) (team_members s))),
            s\<lparr>chat_teams := chat_teams s @ [(c, lower t)]\<rparr>))"
  by (simp add: add_team_to_chat_def add_team_to_chat_body_def no_faults_def Let_def)

lemma offboard_user_no_faults:
  "offboard_user no_faults u s =
     (if replace_at u \<notin> fst ` set (team_members s) then (NotInAnyTeams (replace_at u), s)
      else (UserOffboarded (replace_at u)
              (remdups (map fst (filter (\<lambda>(c, t). t \<in> set (map snd (filter (\<lambda>(u', t'). u' = replace_at u) (team_members s)))) (chat_teams s)))),
            s\<lparr>team_members := filter (\<lambda>(u', t'). u' \<noteq> replace_at u) (team_members s)\<rparr>))"
  by (force simp add: offboard_user_def offboard_user_body_def no_faults_def Let_def filter_empty_conv)

text \<open>Normal forms of the names used in the examples.\<close>

lemma lower_Ops: "lower ''Ops'' = ''ops''"
  by (simp add: lower_def lower_char_def)

lemma lower_eng: "lower ''eng'' = ''eng''"
  by (simp add: lower_def lower_char_def)

lemma lower_Eng: "lower ''Eng'' = ''eng''"
  by (simp add: lower_def lower_char_def)

lemma replace_at_bob: "replace_at ''bob'' = ''bob''"
  by (simp add: replace_at_def)

lemma replace_at_u: "replace_at ''@u'' = ''u''"
  by (simp add: replace_at_def)

lemma replace_at_Alice: "replace_at ''@Alice'' = ''Alice''" "replace_at ''Alice'' = ''Alice''"
  "replace_at ''alice'' = ''alice''"
  by (simp_all add: replace_at_def)

text \<open>
  The end-to-end example of the specification: create \<^verbatim>\<open>eng\<close>, link it to chat 100
  (no members yet), add \<^verbatim>\<open>bob\<close> (chat list \<^verbatim>\<open>[100]\<close>), list the members, remove
  \<^verbatim>\<open>bob\<close> (chat list \<^verbatim>\<open>[100]\<close>), list again.
\<close>

lemma end_to_end_example:
  "create_team no_faults ''eng'' empty_db = (TeamCreated ''eng'', db_eng)"
  "add_team_to_chat no_faults 100 ''eng'' db_eng
     = (TeamAddedToChat ''eng'' [], db_eng\<lparr>chat_teams := [(100, ''eng'')]\<rparr>)"
  "add_member_to_team no_faults ''bob'' ''eng'' (db_eng\<lparr>chat_teams := [(100, ''eng'')]\<rparr>)
     = (MemberAdded ''bob'' ''eng'' [100], db_bob\<lparr>chat_teams := [(100, ''eng'')]\<rparr>)"
  "get_team_members no_faults ''eng'' (db_bob\<lparr>chat_teams := [(100, ''eng'')]\<rparr>) = Inr [''bob'']"
  "remove_member_from_team no_faults ''bob'' ''eng'' (db_bob\<lparr>chat_teams := [(100, ''eng'')]\<rparr>)
     = (MemberRemoved ''bob'' ''eng'' [100], db_eng\<lparr>chat_teams := [(100, ''eng'')]\<rparr>)"
  "get_team_members no_faults ''eng'' (db_eng\<lparr>chat_teams := [(100, ''eng'')]\<rparr>) = Inr []"
  by (simp_all add: create_team_no_faults add_team_to_chat_no_faults add_member_to_team_no_faults
      remove_member_from_team_no_faults get_team_members_def no_faults_call fits_int64_def
      lower_eng replace_at_bob empty_db_def db_eng_def db_bob_def)

section \<open>Username normalisation\<close>

text \<open>
  Claim C1, as amended. Both methods normalise the username by removing every \<^verbatim>\<open>@\<close>
  and the team name by lower-casing it, and depend on their arguments only through these
  normal forms; the letter case of the username is kept. When the storage works, a
  successful \<^verbatim>\<open>add_member_to_team u t\<close> appends the row of the normal forms, and a
  following \<^verbatim>\<open>remove_member_from_team u' t'\<close> with the same normal forms succeeds and
  restores the store from before the addition.
\<close>

theorem add_then_remove_same_normal_form:
  assumes "replace_at u' = replace_at u" and "lower t' = lower t"
    and "success (fst (add_member_to_team no_faults u t s))"
  shows "add_member_to_team flt u' t' s = add_member_to_team flt u t s
       \<and> remove_member_from_team flt u' t' s = remove_member_from_team flt u t s
       \<and> team_members (snd (add_member_to_team no_faults u t s))
           = team_members s @ [(replace_at u, lower t)]
       \<and> (\<exists>chats. remove_member_from_team no_faults u' t' (snd (add_member_to_team no_faults u t s))
             = (MemberRemoved (replace_at u) (lower t) chats, s))"
proof -
  from assms(3) have new: "(replace_at u, lower t) \<notin> set (team_members s)"
    and team: "lower t \<in> set (teams s)"
    by (auto simp add: add_member_to_team_no_faults split: if_splits)
  from new have "filter (\<lambda>r. r \<noteq> (replace_at u, lower t)) (team_members s) = team_members s"
    by (auto simp add: filter_id_conv)
  with new team assms(1,2)
  have removed: "remove_member_from_team no_faults u' t' (snd (add_member_to_team no_faults u t s))
      = (MemberRemoved (replace_at u) (lower t)
           (map fst (filter (\<lambda>(c, t'). t' = lower t) (chat_teams s))), s)"
    by (simp add: add_member_to_team_no_faults remove_member_from_team_no_faults)
  from new team
  have added: "team_members (snd (add_member_to_team no_faults u t s))
      = team_members s @ [(replace_at u, lower t)]"
    by (simp add: add_member_to_team_no_faults)
  from assms(1,2) have "add_member_to_team flt u' t' s = add_member_to_team flt u t s"
    and "remove_member_from_team flt u' t' s = remove_member_from_team flt u t s"
    by (simp_all add: add_member_to_team_def remove_member_from_team_def)
  with removed added show ?thesis by simp
qed

theorem add_then_remove_same_normal_form_witness:
  "replace_at ''Alice'' = replace_at ''@Alice'' \<and> lower ''eng'' = lower ''Eng''
   \<and> success (fst (add_member_to_team no_faults ''@Alice'' ''Eng'' db_eng))
   \<and> (\<exists>chats. remove_member_from_team no_faults ''Alice'' ''eng''
                 (snd (add_member_to_team no_faults ''@Alice'' ''Eng'' db_eng))
               = (MemberRemoved ''Alice'' ''eng'' chats, db_eng))"
proof -
  have h1: "replace_at ''Alice'' = replace_at ''@Alice''"
    by (simp add: replace_at_Alice)
  have h2: "lower ''eng'' = lower ''Eng''"
    by (simp add: lower_eng lower_Eng)
  have h3: "success (fst (add_member_to_team no_faults ''@Alice'' ''Eng'' db_eng))"
    by (simp add: add_member_to_team_no_faults replace_at_Alice lower_Eng db_eng_def)
  from add_then_remove_same_normal_form [OF h1 h2 h3, of no_faults]
  have "\<exists>chats. remove_member_from_team no_faults ''Alice'' ''eng''
                 (snd (add_member_to_team no_faults ''@Alice'' ''Eng'' db_eng))
               = (MemberRemoved ''Alice'' ''eng'' chats, db_eng)"
    by (simp add: replace_at_Alice lower_Eng)
  with h1 h2 h3 show ?thesis by (intro conjI)
qed

text \<open>
  The claim as written fails: \<^verbatim>\<open>add_member_to_team("@Alice", "Eng")\<close> stores the row
  \<^verbatim>\<open>("Alice", "eng")\<close>, and \<^verbatim>\<open>remove_member_from_team("alice", "eng")\<close> looks for
  \<^verbatim>\<open>("alice", "eng")\<close>, answers "not in team" and leaves the row in place.
\<close>

theorem username_case_counterexample:
  "add_member_to_team no_faults ''@Alice'' ''Eng'' db_eng = (MemberAdded ''Alice'' ''eng'' [], db_alice)
   \<and> remove_member_from_team no_faults ''alice'' ''eng'' db_alice = (NotInTeam ''alice'' ''eng'', db_alice)
   \<and> (''Alice'', ''eng'') \<in> set (team_members db_alice)"
  by (simp add: add_member_to_team_no_faults remove_member_from_team_no_faults
      replace_at_Alice lower_Eng lower_eng db_eng_def db_alice_def)

section \<open>Failure outcomes and the store\<close>

lemma storage_fault_is_internal_error:
  "flt Connect \<Longrightarrow> run flt op s = (InternalServerError, s)"
  by (cases op) (simp_all add: body_defs Let_def)

lemma failure_without_fault_after_commit:
  assumes "\<not> success (fst (run flt op s))"
    and "\<forall>c. query_after_commit op = Some c \<longrightarrow> \<not> flt c"
  shows "snd (run flt op s) = s"
  using assms by (cases op) (auto simp add: body_defs Let_def split: if_splits)

lemma typed_failure:
  assumes "\<not> success (fst (run flt op s))"
    and "fst (run flt op s) \<noteq> InternalServerError"
  shows "snd (run flt op s) = s"
  using assms by (cases op) (auto simp add: body_defs Let_def split: if_splits)

text \<open>
  Claim C2, as amended. Every mutating method returns a response on every run (\<open>run\<close> has
  no exception in its result; a storage fault becomes \<open>InternalServerError\<close>). When the
  response is a failure, the persisted store is the one from before the call, provided the
  response is not \<open>InternalServerError\<close> or no fault hit the query that the method runs
  after its commit. \<^verbatim>\<open>create_team\<close> and \<^verbatim>\<open>offboard_user\<close> have no such query, so every
  failure of theirs leaves the store unchanged.
\<close>

theorem failure_leaves_store_unchanged:
  assumes "\<not> success (fst (run flt op s))"
    and "fst (run flt op s) \<noteq> InternalServerError
         \<or> (\<forall>c. query_after_commit op = Some c \<longrightarrow> \<not> flt c)"
  shows "snd (run flt op s) = s"
  using assms typed_failure failure_without_fault_after_commit by blast

theorem failure_leaves_store_unchanged_witness:
  "\<not> success (fst (run (fault_at Commit) (AddMember ''bob'' ''eng'') db_eng))
   \<and> query_after_commit (AddMember ''bob'' ''eng'') = Some (Execute 3)
   \<and> \<not> fault_at Commit (Execute 3)
   \<and> snd (run (fault_at Commit) (AddMember ''bob'' ''eng'') db_eng) = db_eng
   \<and> \<not> success (fst (run (fault_at (Execute 3)) (AddMember ''bob'' ''Ops'') db_eng))
   \<and> fst (run (fault_at (Execute 3)) (AddMember ''bob'' ''Ops'') db_eng) \<noteq> InternalServerError
   \<and> snd (run (fault_at (Execute 3)) (AddMember ''bob'' ''Ops'') db_eng) = db_eng"
proof -
  have h1: "\<not> success (fst (run (fault_at Commit) (AddMember ''bob'' ''eng'') db_eng))"
    by (simp add: add_member_to_team_def add_member_to_team_body_def Let_def fault_at_def
        lower_eng replace_at_bob db_eng_def)
  have h2: "\<forall>c. query_after_commit (AddMember ''bob'' ''eng'') = Some c \<longrightarrow> \<not> fault_at Commit c"
    by (simp add: fault_at_def)
  from h2 have h3: "fst (run (fault_at Commit) (AddMember ''bob'' ''eng'') db_eng) \<noteq> InternalServerError
         \<or> (\<forall>c. query_after_commit (AddMember ''bob'' ''eng'') = Some c \<longrightarrow> \<not> fault_at Commit c)"
    by (rule disjI2)
  have r: "fst (run (fault_at (Execute 3)) (AddMember ''bob'' ''Ops'') db_eng) = TeamDoesNotExist ''ops''"
    by (simp add: add_member_to_team_def add_member_to_team_body_def Let_def fault_at_def
        lower_Ops replace_at_bob db_eng_def)
  then have k1: "\<not> success (fst (run (fault_at (Execute 3)) (AddMember ''bob'' ''Ops'') db_eng))"
    and k2: "fst (run (fault_at (Execute 3)) (AddMember ''bob'' ''Ops'') db_eng) \<noteq> InternalServerError"
    by simp_all
  from k2 have k3: "fst (run (fault_at (Execute 3)) (AddMember ''bob'' ''Ops'') db_eng) \<noteq> InternalServerError
         \<or> (\<forall>c. query_after_commit (AddMember ''bob'' ''Ops'') = Some c \<longrightarrow> \<not> fault_at (Execute 3) c)"
    by (rule disjI1)
  from failure_leaves_store_unchanged [OF h1 h3] failure_leaves_store_unchanged [OF k1 k3]
    h1 k1 k2
  show ?thesis
    by (simp add: fault_at_def)
qed

text \<open>
  The claim as written fails: when the \<^verbatim>\<open>SELECT\<close> that follows the commit in
  \<^verbatim>\<open>add_member_to_team\<close> raises, the handler answers "Internal server error" although
  the membership row has been committed.
\<close>

theorem failure_after_commit_counterexample:
  "fst (run (fault_at (Execute 3)) (AddMember ''bob'' ''eng'') db_eng) = InternalServerError
   \<and> \<not> success (fst (run (fault_at (Execute 3)) (AddMember ''bob'' ''eng'') db_eng))
   \<and> snd (run (fault_at (Execute 3)) (AddMember ''bob'' ''eng'') db_eng) = db_bob
   \<and> db_bob \<noteq> db_eng"
  by (simp add: add_member_to_team_def add_member_to_team_body_def Let_def fault_at_def
      lower_eng replace_at_bob db_eng_def db_bob_def)

section \<open>Offboarding\<close>

text \<open>
  Claim C3, when the storage works. For a user with at least one membership row,
  \<^verbatim>\<open>offboard_user\<close> succeeds and returns the chat identifiers, without repetition, of exactly the chats linked in the
  store before the call to a team the user is in there; it deletes all rows of the user and
  nothing else, and \<^verbatim>\<open>get_user_teams\<close> is empty afterwards. For a user without
  membership row it answers "not in any teams" and the store is unchanged.
\<close>

theorem offboard_user_spec:
  "(replace_at u \<in> fst ` set (team_members s) \<longrightarrow>
      (\<exists>chats s'. offboard_user no_faults u s = (UserOffboarded (replace_at u) chats, s')
         \<and> distinct chats
         \<and> set chats = {c. \<exists>t. (c, t) \<in> set (chat_teams s) \<and> (replace_at u, t) \<in> set (team_members s)}
         \<and> team_members s' = filter (\<lambda>(u', t). u' \<noteq> replace_at u) (team_members s)
         \<and> teams s' = teams s \<and> chat_teams s' = chat_teams s
         \<and> get_user_teams no_faults u s' = Inr []))
   \<and> (replace_at u \<notin> fst ` set (team_members s) \<longrightarrow>
        offboard_user no_faults u s = (NotInAnyTeams (replace_at u), s))"
proof (intro conjI impI)
  assume member: "replace_at u \<in> fst ` set (team_members s)"
  let ?user_teams = "map snd (filter (\<lambda>(u', t'). u' = replace_at u) (team_members s))"
  let ?chats = "remdups (map fst (filter (\<lambda>(c, t). t \<in> set ?user_teams) (chat_teams s)))"
  let ?s' = "s\<lparr>team_members := filter (\<lambda>(u', t'). u' \<noteq> replace_at u) (team_members s)\<rparr>"
  from member have run: "offboard_user no_faults u s = (UserOffboarded (replace_at u) ?chats, ?s')"
    by (simp add: offboard_user_no_faults)
  have chats: "set ?chats
      = {c. \<exists>t. (c, t) \<in> set (chat_teams s) \<and> (replace_at u, t) \<in> set (team_members s)}"
    by force
  have "filter (\<lambda>(u', t). u' = replace_at u) (team_members ?s') = []"
    by (auto simp add: filter_empty_conv)
  then have after: "get_user_teams no_faults u ?s' = Inr []"
    by (simp add: get_user_teams_def no_faults_def)
  have rest: "team_members ?s' = filter (\<lambda>(u', t). u' \<noteq> replace_at u) (team_members s)
      \<and> teams ?s' = teams s \<and> chat_teams ?s' = chat_teams s"
    by simp
  have "distinct ?chats" by simp
  with run chats after rest
  show "\<exists>chats s'. offboard_user no_faults u s = (UserOffboarded (replace_at u) chats, s')
         \<and> distinct chats
         \<and> set chats = {c. \<exists>t. (c, t) \<in> set (chat_teams s) \<and> (replace_at u, t) \<in> set (team_members s)}
         \<and> team_members s' = filter (\<lambda>(u', t). u' \<noteq> replace_at u) (team_members s)
         \<and> teams s' = teams s \<and> chat_teams s' = chat_teams s
         \<and> get_user_teams no_faults u s' = Inr []"
    by blast
next
  assume "replace_at u \<notin> fst ` set (team_members s)"
  then show "offboard_user no_faults u s = (NotInAnyTeams (replace_at u), s)"
    by (simp add: offboard_user_no_faults)
qed

theorem offboard_user_spec_witness:
  "replace_at ''@u'' \<in> fst ` set (team_members db_ab)
   \<and> (\<exists>chats s'. offboard_user no_faults ''@u'' db_ab = (UserOffboarded ''u'' chats, s')
         \<and> set chats = {c. \<exists>t. (c, t) \<in> set (chat_teams db_ab) \<and> (''u'', t) \<in> set (team_members db_ab)}
         \<and> get_user_teams no_faults ''@u'' s' = Inr [])
   \<and> offboard_user no_faults ''@u'' db_ab
       = (UserOffboarded ''u'' [1, 2, 3], db_ab\<lparr>team_members := [(''v'', ''a'')]\<rparr>)
   \<and> replace_at ''bob'' \<notin> fst ` set (team_members db_ab)
   \<and> offboard_user no_faults ''bob'' db_ab = (NotInAnyTeams ''bob'', db_ab)"
proof -
  have h: "replace_at ''@u'' \<in> fst ` set (team_members db_ab)"
    by (simp add: replace_at_u db_ab_def)
  have e: "offboard_user no_faults ''@u'' db_ab
       = (UserOffboarded ''u'' [1, 2, 3], db_ab\<lparr>team_members := [(''v'', ''a'')]\<rparr>)"
    by (simp add: offboard_user_no_faults replace_at_u db_ab_def)
  from offboard_user_spec [of "''@u''" db_ab] h
  have c1: "\<exists>chats s'. offboard_user no_faults ''@u'' db_ab = (UserOffboarded ''u'' chats, s')
         \<and> set chats = {c. \<exists>t. (c, t) \<in> set (chat_teams db_ab) \<and> (''u'', t) \<in> set (team_members db_ab)}
         \<and> get_user_teams no_faults ''@u'' s' = Inr []"
    unfolding replace_at_u by blast
  have k: "replace_at ''bob'' \<notin> fst ` set (team_members db_ab)"
    by (simp add: replace_at_bob db_ab_def)
  from offboard_user_spec [of "''bob''" db_ab] k
  have c2: "offboard_user no_faults ''bob'' db_ab = (NotInAnyTeams ''bob'', db_ab)"
    unfolding replace_at_bob by blast
  from h c1 e k c2 show ?thesis by (intro conjI)
qed

section \<open>Adding and removing a member\<close>

text \<open>
  Claim C4, when the storage works. For a team that exists: adding a member and adding the same member again
  answers "already in team" on the second call; and after adding, removing and adding
  again, the removal succeeds, leaves no row of the pair behind, and the last call
  succeeds and stores the row.
\<close>

theorem add_member_twice_and_readd:
  assumes "lower t \<in> set (teams s)"
  shows "let s1 = snd (add_member_to_team no_faults u t s);
             s2 = snd (remove_member_from_team no_faults u t s1) in
         fst (add_member_to_team no_faults u t s1) = AlreadyInTeam (replace_at u) (lower t)
       \<and> success (fst (remove_member_from_team no_faults u t s1))
       \<and> (replace_at u, lower t) \<notin> set (team_members s2)
       \<and> success (fst (add_member_to_team no_faults u t s2))
       \<and> (replace_at u, lower t) \<in> set (team_members (snd (add_member_to_team no_faults u t s2)))"
  using assms
  by (simp add: add_member_to_team_no_faults remove_member_from_team_no_faults Let_def)

theorem add_member_twice_and_readd_witness:
  "lower ''Eng'' \<in> set (teams db_eng)
   \<and> fst (add_member_to_team no_faults ''bob'' ''Eng''
            (snd (add_member_to_team no_faults ''bob'' ''Eng'' db_eng)))
     = AlreadyInTeam ''bob'' ''eng''
   \<and> success (fst (add_member_to_team no_faults ''bob'' ''Eng''
        (snd (remove_member_from_team no_faults ''bob'' ''Eng''
           (snd (add_member_to_team no_faults ''bob'' ''Eng'' db_eng))))))"
proof -
  have h: "lower ''Eng'' \<in> set (teams db_eng)"
    by (simp add: lower_Eng db_eng_def)
  from add_member_twice_and_readd [OF h, of "''bob''"] h show ?thesis
    by (simp add: Let_def lower_Eng replace_at_bob)
qed

section \<open>Referential integrity\<close>

lemma run_ref_integrity:
  assumes "ref_integrity s"
  shows "ref_integrity (snd (run flt op s))"
proof (cases op)
  case (CreateTeam t)
  with assms show ?thesis
    by (auto simp add: create_team_def create_team_body_def Let_def ref_integrity_def)
next
  case (AddMember u t)
  with assms show ?thesis
    by (auto simp add: add_member_to_team_def add_member_to_team_body_def Let_def ref_integrity_def)
next
  case (RemoveMember u t)
  with assms show ?thesis
    by (auto simp add: remove_member_from_team_def remove_member_from_team_body_def Let_def
        ref_integrity_def)
next
  case (AddTeamToChat c t)
  with assms show ?thesis
    by (auto simp add: add_team_to_chat_def add_team_to_chat_body_def Let_def ref_integrity_def)
next
  case (OffboardUser u)
  with assms show ?thesis
    by (auto simp add: offboard_user_def offboard_user_body_def Let_def ref_integrity_def)
qed

lemma run_teams_grow: "set (teams s) \<subseteq> set (teams (snd (run flt op s)))"
  by (cases op) (auto simp add: body_defs Let_def)

lemma run_all_ref_integrity: "ref_integrity s \<Longrightarrow> ref_integrity (run_all calls s)"
proof (induction calls arbitrary: s)
  case Nil
  then show ?case by simp
next
  case (Cons fo calls)
  obtain flt op where fo: "fo = (flt, op)" by (cases fo)
  from Cons.prems have "ref_integrity (snd (run flt op s))" by (rule run_ref_integrity)
  then have "ref_integrity (run_all calls (snd (run flt op s)))" by (rule Cons.IH)
  with fo show ?case by simp
qed

lemma run_pk_unique: "pk_unique s \<Longrightarrow> pk_unique (snd (run flt op s))"
  by (cases op) (auto simp add: body_defs Let_def pk_unique_def)

text \<open>
  Claim C5. Referential integrity holds in the empty store and is preserved by every
  mutating method, on every run (with or without storage faults); no method removes a row
  of \<^verbatim>\<open>teams\<close>; hence it holds after any sequence of calls from the empty store. The
  queries do not change the store.
\<close>

theorem referential_integrity_invariant:
  "ref_integrity empty_db
   \<and> (ref_integrity s \<longrightarrow> ref_integrity (snd (run flt op s)))
   \<and> set (teams s) \<subseteq> set (teams (snd (run flt op s)))
   \<and> ref_integrity (run_all calls empty_db)"
proof -
  have e: "ref_integrity empty_db"
    by (simp add: ref_integrity_def empty_db_def)
  from e have "ref_integrity (run_all calls empty_db)"
    by (rule run_all_ref_integrity)
  with e show ?thesis
    by (simp add: run_ref_integrity run_teams_grow)
qed

theorem referential_integrity_invariant_witness:
  "ref_integrity db_ab \<and> ref_integrity (snd (run no_faults (AddMember ''w'' ''B'') db_ab))"
proof -
  have h: "ref_integrity db_ab"
    by (simp add: ref_integrity_def db_ab_def)
  from referential_integrity_invariant [where s = db_ab and flt = no_faults
      and op = "AddMember ''w'' ''B''" and calls = "[]"]
  have "ref_integrity db_ab \<longrightarrow> ref_integrity (snd (run no_faults (AddMember ''w'' ''B'') db_ab))"
    by (elim conjE)
  with h show ?thesis by simp
qed

section \<open>Creating a team\<close>

lemma count_distinct_member:
  assumes "distinct xs" and "x \<in> set xs"
  shows "length (filter (\<lambda>y. y = x) xs) = 1"
proof -
  from assms(2) have "{y. y = x} \<inter> set xs = {x}" by auto
  with assms(1) show ?thesis by (simp add: distinct_length_filter)
qed

text \<open>
  Claim C6, when the storage works. For two team names with the same lower-case form and a store whose table
  \<^verbatim>\<open>teams\<close> has no duplicate (its primary key), \<^verbatim>\<open>create_team\<close> of the first followed
  by \<^verbatim>\<open>create_team\<close> of the second answers "already exists" on the second call and
  changes nothing, and the table then holds exactly one row of the lower-case name.
\<close>

theorem create_team_twice:
  assumes "lower a = lower b" and "distinct (teams s)"
  shows "create_team no_faults b (snd (create_team no_faults a s))
           = (TeamAlreadyExists (lower b), snd (create_team no_faults a s))
       \<and> length (filter (\<lambda>t. t = lower a) (teams (snd (create_team no_faults a s)))) = 1"
proof (cases "lower a \<in> set (teams s)")
  case True
  with assms show ?thesis
    by (simp add: create_team_no_faults count_distinct_member)
next
  case False
  then have "filter (\<lambda>t. t = lower a) (teams s) = []"
    by (auto simp add: filter_empty_conv)
  with False assms show ?thesis
    by (simp add: create_team_no_faults)
qed

theorem create_team_twice_witness:
  "lower ''Eng'' = lower ''eng'' \<and> distinct (teams empty_db)
   \<and> create_team no_faults ''eng'' (snd (create_team no_faults ''Eng'' empty_db))
       = (TeamAlreadyExists ''eng'', db_eng)
   \<and> length (filter (\<lambda>t. t = ''eng'') (teams (snd (create_team no_faults ''Eng'' empty_db)))) = 1"
proof -
  have h1: "lower ''Eng'' = lower ''eng''"
    by (simp add: lower_eng lower_Eng)
  have h2: "distinct (teams empty_db)"
    by (simp add: empty_db_def)
  have e: "snd (create_team no_faults ''Eng'' empty_db) = db_eng"
    by (simp add: create_team_no_faults lower_Eng empty_db_def db_eng_def)
  from create_team_twice [OF h1 h2] h1 h2 e show ?thesis
    by (simp add: lower_eng lower_Eng)
qed

section \<open>Linking a team to a chat\<close>

text \<open>
  Claim C7, as amended, when the storage works. \<^verbatim>\<open>add_team_to_chat\<close> answers "doesn't exist" for a team that is
  not in \<^verbatim>\<open>teams\<close>; for an existing team and a chat identifier that fits SQLite's 64-bit
  INTEGER, a second call for the same pair answers "already in this chat"; for an existing
  team and a chat identifier outside that range it answers "Internal server error" and
  stores nothing; and on success it returns all members of the team and appends the link.
\<close>

theorem add_team_to_chat_outcomes:
  "(lower t \<notin> set (teams s) \<longrightarrow>
      add_team_to_chat no_faults c t s = (TeamDoesNotExist (lower t), s))
   \<and> (lower t \<in> set (teams s) \<and> fits_int64 c \<longrightarrow>
        fst (add_team_to_chat no_faults c t (snd (add_team_to_chat no_faults c t s)))
          = TeamAlreadyInChat (lower t))
   \<and> (lower t \<in> set (teams s) \<and> \<not> fits_int64 c \<longrightarrow>
        add_team_to_chat no_faults c t s = (InternalServerError, s))
   \<and> (success (fst (add_team_to_chat no_faults c t s)) \<longrightarrow>
        (\<exists>members. fst (add_team_to_chat no_faults c t s) = TeamAddedToChat (lower t) members
           \<and> members = map fst (filter (\<lambda>(u, t'). t' = lower t) (team_members s))
           \<and> set members = {u. (u, lower t) \<in> set (team_members s)}
           \<and> team_members (snd (add_team_to_chat no_faults c t s)) = team_members s
           \<and> chat_teams (snd (add_team_to_chat no_faults c t s)) = chat_teams s @ [(c, lower t)]))"
proof -
  have "set (map fst (filter (\<lambda>(u, t'). t' = lower t) (team_members s)))
      = {u. (u, lower t) \<in> set (team_members s)}"
    by force
  then show ?thesis
    by (simp add: add_team_to_chat_no_faults)
qed

theorem add_team_to_chat_outcomes_witness:
  "lower ''Ops'' \<notin> set (teams db_bob)
   \<and> add_team_to_chat no_faults 100 ''Ops'' db_bob = (TeamDoesNotExist ''ops'', db_bob)
   \<and> lower ''Eng'' \<in> set (teams db_bob) \<and> fits_int64 100
   \<and> success (fst (add_team_to_chat no_faults 100 ''Eng'' db_bob))
   \<and> fst (add_team_to_chat no_faults 100 ''Eng'' db_bob) = TeamAddedToChat ''eng'' [''bob'']
   \<and> fst (add_team_to_chat no_faults 100 ''Eng'' (snd (add_team_to_chat no_faults 100 ''Eng'' db_bob)))
       = TeamAlreadyInChat ''eng''
   \<and> \<not> fits_int64 9223372036854775808
   \<and> add_team_to_chat no_faults 9223372036854775808 ''Eng'' db_bob = (InternalServerError, db_bob)"
proof -
  have h1: "lower ''Ops'' \<notin> set (teams db_bob)"
    by (simp add: lower_Ops db_bob_def)
  have h2: "lower ''Eng'' \<in> set (teams db_bob) \<and> fits_int64 100"
    by (simp add: lower_Eng db_bob_def fits_int64_def)
  have h3: "success (fst (add_team_to_chat no_faults 100 ''Eng'' db_bob))"
    using h2 by (simp add: add_team_to_chat_no_faults lower_Eng db_bob_def)
  have h4: "\<not> fits_int64 9223372036854775808"
    by (simp add: fits_int64_def)
  have m: "map fst (filter (\<lambda>(u, t'). t' = lower ''Eng'') (team_members db_bob)) = [''bob'']"
    by (simp add: lower_Eng db_bob_def)
  from add_team_to_chat_outcomes [of "''Ops''" db_bob 100] h1
  have c1: "add_team_to_chat no_faults 100 ''Ops'' db_bob = (TeamDoesNotExist ''ops'', db_bob)"
    by (simp add: lower_Ops)
  from add_team_to_chat_outcomes [of "''Eng''" db_bob 100] h2 h3 m
  have c2: "fst (add_team_to_chat no_faults 100 ''Eng'' db_bob) = TeamAddedToChat ''eng'' [''bob'']
    \<and> fst (add_team_to_chat no_faults 100 ''Eng'' (snd (add_team_to_chat no_faults 100 ''Eng'' db_bob)))
       = TeamAlreadyInChat ''eng''"
    by (simp add: lower_Eng)
  from add_team_to_chat_outcomes [of "''Eng''" db_bob 9223372036854775808] h2 h4
  have c3: "add_team_to_chat no_faults 9223372036854775808 ''Eng'' db_bob = (InternalServerError, db_bob)"
    by blast
  from h1 c1 h2 h3 c2 h4 c3 show ?thesis by (intro conjI) simp_all
qed

text \<open>
  The claim as written fails for a chat identifier that SQLite cannot store: binding
  \<open>2 ^ 63\<close> raises \<^verbatim>\<open>OverflowError\<close>, so both calls answer "Internal server error".
\<close>

theorem add_team_to_chat_twice_counterexample:
  "lower ''eng'' \<in> set (teams db_eng)
   \<and> add_team_to_chat no_faults 9223372036854775808 ''eng'' db_eng = (InternalServerError, db_eng)
   \<and> fst (add_team_to_chat no_faults 9223372036854775808 ''eng''
            (snd (add_team_to_chat no_faults 9223372036854775808 ''eng'' db_eng)))
       \<noteq> TeamAlreadyInChat (lower ''eng'')"
  by (simp add: add_team_to_chat_no_faults fits_int64_def lower_eng db_eng_def)

section \<open>Listing the members of a team\<close>

text \<open>
  Claim C8, when the storage works. \<^verbatim>\<open>get_team_members\<close> returns the usernames of the rows of the lower-cased
  team, one per row, in lexicographic order; the list is empty when the team has no
  member row, and also when the team is not in \<^verbatim>\<open>teams\<close> (by referential integrity),
  so the two cases give the same answer.
\<close>

theorem get_team_members_sorted:
  "\<exists>members. get_team_members no_faults t s = Inr members
     \<and> sorted members
     \<and> set members = {u. (u, lower t) \<in> set (team_members s)}
     \<and> length members = length (filter (\<lambda>(u, t'). t' = lower t) (team_members s))
     \<and> ((\<forall>u. (u, lower t) \<notin> set (team_members s)) \<longrightarrow> members = [])
     \<and> (ref_integrity s \<and> lower t \<notin> set (teams s) \<longrightarrow> members = [])"
proof -
  let ?rows = "filter (\<lambda>(u, t'). t' = lower t) (team_members s)"
  let ?members = "sort (map fst ?rows)"
  have run: "get_team_members no_faults t s = Inr ?members"
    by (simp add: get_team_members_def no_faults_def)
  have members: "set ?members = {u. (u, lower t) \<in> set (team_members s)}"
    by force
  have none: "?members = []" if "\<forall>u. (u, lower t) \<notin> set (team_members s)"
  proof -
    from that have "?rows = []" by (auto simp add: filter_empty_conv)
    then show ?thesis by simp
  qed
  have unknown: "\<forall>u. (u, lower t) \<notin> set (team_members s)"
    if "ref_integrity s \<and> lower t \<notin> set (teams s)"
    using that by (force simp add: ref_integrity_def)
  from run members none unknown show ?thesis
    by (intro exI [of _ ?members]) simp
qed

theorem get_team_members_sorted_witness:
  "ref_integrity db_zed \<and> lower ''QA'' \<notin> set (teams db_zed)
   \<and> (\<forall>u. (u, lower ''Ops'') \<notin> set (team_members db_zed))
   \<and> get_team_members no_faults ''QA'' db_zed = Inr []
   \<and> get_team_members no_faults ''Ops'' db_zed = Inr []
   \<and> get_team_members no_faults ''Eng'' db_zed = Inr [''Zed'', ''al'', ''bob'']"
proof -
  have l: "lower ''QA'' = ''qa''"
    by (simp add: lower_def lower_char_def)
  have h1: "ref_integrity db_zed \<and> lower ''QA'' \<notin> set (teams db_zed)"
    by (simp add: ref_integrity_def l db_zed_def)
  have h2: "\<forall>u. (u, lower ''Ops'') \<notin> set (team_members db_zed)"
    by (simp add: lower_Ops db_zed_def)
  from get_team_members_sorted [of "''QA''" db_zed] h1
  have c1: "get_team_members no_faults ''QA'' db_zed = Inr []" by auto
  from get_team_members_sorted [of "''Ops''" db_zed] h2
  have c2: "get_team_members no_faults ''Ops'' db_zed = Inr []" by auto
  have c3: "get_team_members no_faults ''Eng'' db_zed = Inr [''Zed'', ''al'', ''bob'']"
    by code_simp
  from h1 h2 c1 c2 c3 show ?thesis by (intro conjI) simp_all
qed

section \<open>Adding a member to an unknown team\<close>

lemma add_member_to_team_unknown_team_any_faults:
  assumes "lower t \<notin> set (teams s)"
  shows "add_member_to_team flt u t s = (TeamDoesNotExist (lower t), s)
       \<or> add_member_to_team flt u t s = (InternalServerError, s)"
  using assms by (simp add: add_member_to_team_def add_member_to_team_body_def Let_def)

text \<open>
  Claim C9. When the normalised team name is not a row of \<^verbatim>\<open>teams\<close> and the storage
  works, \<^verbatim>\<open>add_member_to_team\<close> answers that the team does not exist, whatever the username, and
  the store is unchanged; even a run with storage faults leaves \<^verbatim>\<open>team_members\<close> as it was.
\<close>

theorem add_member_unknown_team:
  assumes "lower t \<notin> set (teams s)"
  shows "add_member_to_team no_faults u t s = (TeamDoesNotExist (lower t), s)
       \<and> \<not> success (fst (add_member_to_team no_faults u t s))
       \<and> team_members (snd (add_member_to_team flt u t s)) = team_members s"
proof -
  have "add_member_to_team no_faults u t s = (TeamDoesNotExist (lower t), s)"
    using assms by (simp add: add_member_to_team_no_faults)
  moreover have "team_members (snd (add_member_to_team flt u t s)) = team_members s"
    using add_member_to_team_unknown_team_any_faults [OF assms, of flt u] by auto
  ultimately show ?thesis by simp
qed

theorem add_member_unknown_team_witness:
  "lower ''Ops'' \<notin> set (teams db_eng)
   \<and> add_member_to_team no_faults ''bob'' ''Ops'' db_eng = (TeamDoesNotExist ''ops'', db_eng)"
proof -
  have h: "lower ''Ops'' \<notin> set (teams db_eng)"
    by (simp add: lower_Ops db_eng_def)
  from add_member_unknown_team [OF h, of "''bob''" no_faults] h show ?thesis
    by (simp add: lower_Ops)
qed

section \<open>Removing a member of an unknown team\<close>

text \<open>
  Claim C10. \<^verbatim>\<open>remove_member_from_team\<close> never reads the table \<^verbatim>\<open>teams\<close>: replacing
  that table changes neither its answer nor what it does to the other tables. When the
  storage works and the pair is not a membership row, the answer is "not in team", and so it is for a team that
  does not exist (by referential integrity no row can name it): the same answer as for a
  non-member of an existing team.
\<close>

theorem remove_member_no_team_check:
  "remove_member_from_team flt u t (s\<lparr>teams := ts\<rparr>)
     = (fst (remove_member_from_team flt u t s),
        (snd (remove_member_from_team flt u t s))\<lparr>teams := ts\<rparr>)
   \<and> ((replace_at u, lower t) \<notin> set (team_members s) \<longrightarrow>
        remove_member_from_team no_faults u t s = (NotInTeam (replace_at u) (lower t), s))
   \<and> (ref_integrity s \<and> lower t \<notin> set (teams s) \<longrightarrow>
        remove_member_from_team no_faults u t s = (NotInTeam (replace_at u) (lower t), s))"
proof -
  have "remove_member_from_team flt u t (s\<lparr>teams := ts\<rparr>)
     = (fst (remove_member_from_team flt u t s),
        (snd (remove_member_from_team flt u t s))\<lparr>teams := ts\<rparr>)"
    by (simp add: remove_member_from_team_def remove_member_from_team_body_def Let_def)
  moreover have "ref_integrity s \<and> lower t \<notin> set (teams s) \<Longrightarrow>
      (replace_at u, lower t) \<notin> set (team_members s)"
    by (force simp add: ref_integrity_def)
  ultimately show ?thesis
    by (auto simp add: remove_member_from_team_no_faults)
qed

theorem remove_member_no_team_check_witness:
  "ref_integrity db_eng \<and> lower ''Ops'' \<notin> set (teams db_eng)
   \<and> (replace_at ''bob'', lower ''eng'') \<notin> set (team_members db_eng)
   \<and> remove_member_from_team no_faults ''bob'' ''Ops'' db_eng = (NotInTeam ''bob'' ''ops'', db_eng)
   \<and> remove_member_from_team no_faults ''bob'' ''eng'' db_eng = (NotInTeam ''bob'' ''eng'', db_eng)"
proof -
  have h1: "ref_integrity db_eng \<and> lower ''Ops'' \<notin> set (teams db_eng)"
    by (simp add: ref_integrity_def lower_Ops db_eng_def)
  have h2: "(replace_at ''bob'', lower ''eng'') \<notin> set (team_members db_eng)"
    by (simp add: db_eng_def)
  from remove_member_no_team_check [where flt = no_faults and u = "''bob''" and t = "''Ops''" and s = db_eng]
       remove_member_no_team_check [where flt = no_faults and u = "''bob''" and t = "''eng''" and s = db_eng]
       h1 h2
  show ?thesis
    by (simp add: lower_Ops lower_eng replace_at_bob)
qed

end
